theory Spec2Isabelle
  imports Complex_Main
begin

section \<open>Silent WAV cleaner: the model\<close>

text \<open>
  The model follows \<^verbatim>\<open>cleanup.py\<close>. Python's unbounded integers are \<open>int\<close>. Amplitudes,
  the threshold and the duration are Python floats; they are modelled as \<open>real\<close>, which is
  exact for the comparisons and maxima the scanner performs on finite samples (a sample
  that is not a number is outside the model).
\<close>

subsection \<open>Exceptions\<close>

text \<open>
  An exception caught by \<^verbatim>\<open>except Exception as e\<close> is known to the program by
  \<^verbatim>\<open>type(e).__name__\<close> and \<^verbatim>\<open>str(e)\<close> only. What the handlers do not catch
  (\<^verbatim>\<open>KeyboardInterrupt\<close>, \<^verbatim>\<open>SystemExit\<close>) is an interruption from outside and is not
  modelled.
\<close>

datatype exn = Exn (exn_type: string) (exn_msg: string)

subsection \<open>The numpy calls of the planner\<close>

text \<open>
  \<^verbatim>\<open>np.linspace(start, stop, num=num, dtype=np.int64)\<close>, following numpy's own steps:
  \<^verbatim>\<open>div = num - 1\<close>, \<^verbatim>\<open>delta = stop - start\<close>, \<^verbatim>\<open>y = arange(0, num)\<close>, then
  \<^verbatim>\<open>y * step\<close> with \<^verbatim>\<open>step = delta / div\<close> when \<^verbatim>\<open>div > 0\<close> (\<^verbatim>\<open>y / div * delta\<close> when the
  step is zero) and \<^verbatim>\<open>y * delta\<close> otherwise, \<^verbatim>\<open>y += start\<close>, the last entry overwritten
  with \<^verbatim>\<open>stop\<close> when \<^verbatim>\<open>num > 1\<close>, and for an integer dtype the floor of every entry.
  The float64 products are taken exactly. numpy raises for a negative \<^verbatim>\<open>num\<close>; the
  planner only calls it with \<^verbatim>\<open>max(1, num_samples)\<close>.
\<close>

definition np_linspace_int :: "int \<Rightarrow> int \<Rightarrow> int \<Rightarrow> int list" where
  "np_linspace_int start stop num =
     (let dv = num - 1;
          delta = real_of_int (stop - start);
          y = map real [0..<nat num];
          y = (if dv > 0 then
                 (let step = delta / real_of_int dv
                  in if step = 0 then map (\<lambda>v. v / real_of_int dv * delta) y
                     else map (\<lambda>v. v * step) y)
               else map (\<lambda>v. v * delta) y);
          y = map (\<lambda>v. v + real_of_int start) y;
          y = (if num > 1 then y[nat (num - 1) := real_of_int stop] else y)
      in map floor y)"

text \<open>\<^verbatim>\<open>np.unique\<close> sorts the array and keeps the first entry of every run of equal ones.\<close>

definition np_unique :: "int list \<Rightarrow> int list" where
  "np_unique xs = remdups_adj (sort xs)"

subsection \<open>compute\_sample\_positions\<close>

definition compute_sample_positions :: "int \<Rightarrow> int \<Rightarrow> int \<Rightarrow> int \<Rightarrow> int list \<times> int" where
  "compute_sample_positions total_frames sr interval_seconds num_samples =
     (let frames_per_interval = sr * interval_seconds in
      if sr \<le> 0 \<or> total_frames \<le> 0 \<or> frames_per_interval \<le> 0 then ([], frames_per_interval)
      else if total_frames \<le> frames_per_interval then ([0], frames_per_interval)
      else
        (let max_start = total_frames - frames_per_interval;
             starts = np_linspace_int 0 max_start (max 1 num_samples);
             starts = np_unique starts
         in (starts, frames_per_interval)))"


subsection \<open>Configuration and scan results\<close>

text \<open>
  The module-level constants. The source ships \<^verbatim>\<open>MODE = "AUDIT"\<close>,
  \<^verbatim>\<open>INTERVAL_SECONDS = 7\<close>, \<^verbatim>\<open>NUM_SAMPLES_PER_FILE = 16\<close>, \<^verbatim>\<open>SILENCE_THRESHOLD = 1e-4\<close>
  and \<^verbatim>\<open>MIN_SIZE_BYTES = 0\<close> and asks the user to edit them, so they are a record
  that every function takes.
\<close>

record config =
  MODE :: string
  INTERVAL_SECONDS :: int
  NUM_SAMPLES_PER_FILE :: int
  SILENCE_THRESHOLD :: real
  MIN_SIZE_BYTES :: int

definition default_config :: config where
  "default_config =
     \<lparr>MODE = ''AUDIT'', INTERVAL_SECONDS = 7, NUM_SAMPLES_PER_FILE = 16,
      SILENCE_THRESHOLD = 1 / 10000, MIN_SIZE_BYTES = 0\<rparr>"

record ScanResult =
  path :: string
  decision :: string
  detail :: string
  size_bytes :: int
  duration_sec :: real
  samplerate :: int
  channels :: int
  interval_seconds :: int
  num_samples_used :: int
  threshold :: real
  max_abs_seen :: real

subsection \<open>The file system and the audio reader\<close>

text \<open>
  An open \<^verbatim>\<open>sf.SoundFile\<close>: its metadata, and what \<^verbatim>\<open>seek(start)\<close> and a following
  \<^verbatim>\<open>read(frames)\<close> at that position do. A read returns the samples of all channels
  (the flattened 2-d array, so its length is \<^verbatim>\<open>data.size\<close>) or raises; it may return
  fewer frames than asked, or none. Leaving the \<^verbatim>\<open>with\<close> block closes the handle;
  closing is taken not to raise.
\<close>

record soundfile =
  sf_samplerate :: int
  sf_channels :: int
  sf_frames :: int
  sf_seek :: "int \<Rightarrow> exn option"
  sf_read :: "int \<Rightarrow> int \<Rightarrow> exn + real list"

text \<open>
  A file on disk: what \<^verbatim>\<open>wav_path.stat().st_size\<close>, \<^verbatim>\<open>sf.SoundFile(wav_path)\<close> and
  \<^verbatim>\<open>os.remove(path)\<close> do on it (\<open>None\<close>: the removal succeeds).
\<close>

record wav_file =
  st_size :: "exn + int"
  sf_open :: "exn + soundfile"
  os_remove :: "exn option"

datatype call =
    StatCall string
  | OpenCall string
  | SeekCall string int
  | ReadCall string int
  | RemoveCall string

text \<open>The world: the files by path, and the log of the calls made on it so far.\<close>

record world =
  files :: "string \<Rightarrow> wav_file option"
  calls :: "call list"

definition quoted :: "string \<Rightarrow> string" where
  "quoted s = [CHR 0x27] @ s @ [CHR 0x27]"

definition path_stat :: "world \<Rightarrow> string \<Rightarrow> exn + int" where
  "path_stat w p =
     (case files w p of
        None \<Rightarrow> Inl (Exn ''FileNotFoundError''
                       (''[Errno 2] No such file or directory: '' @ quoted p))
      | Some f \<Rightarrow> st_size f)"

definition soundfile_open :: "world \<Rightarrow> string \<Rightarrow> exn + soundfile" where
  "soundfile_open w p =
     (case files w p of
        None \<Rightarrow> Inl (Exn ''LibsndfileError'' (''Error opening '' @ quoted p @ '': System error.''))
      | Some f \<Rightarrow> sf_open f)"

definition os_remove_path :: "world \<Rightarrow> string \<Rightarrow> exn option \<times> world" where
  "os_remove_path w p =
     (let w = w\<lparr>calls := calls w @ [RemoveCall p]\<rparr> in
      case files w p of
        None \<Rightarrow> (Some (Exn ''FileNotFoundError''
                        (''[Errno 2] No such file or directory: '' @ quoted p)), w)
      | Some f \<Rightarrow>
          (case os_remove f of
             Some e \<Rightarrow> (Some e, w)
           | None \<Rightarrow> (None, w\<lparr>files := (files w)(p := None)\<rparr>)))"

subsection \<open>Formatting\<close>

text \<open>Python's \<^verbatim>\<open>str\<close> of an integer, for the f-string of the size gate.\<close>

fun str_nat :: "nat \<Rightarrow> string" where
  "str_nat n =
     (if n < 10 then [char_of (48 + n)]
      else str_nat (n div 10) @ [char_of (48 + n mod 10)])"

definition str_int :: "int \<Rightarrow> string" where
  "str_int i = (if i < 0 then ''-'' @ str_nat (nat (- i)) else str_nat (nat i))"

text \<open>
  The float format \<^verbatim>\<open>{peak:.6g}\<close> is a parameter \<open>fmt6g\<close> of the scanner: no property
  below depends on how a float prints.
\<close>

subsection \<open>scan\_wav\_for\_silence\<close>

text \<open>
  \<^verbatim>\<open>np.max\<close> raises on an empty array; the scanner only calls it after
  \<^verbatim>\<open>data.size == 0\<close> was excluded.
\<close>

fun np_max :: "real list \<Rightarrow> exn + real" where
  "np_max [] = Inl (Exn ''ValueError''
       ''zero-size array to reduction operation maximum which has no identity'')"
| "np_max (x # xs) = Inr (fold max xs x)"

text \<open>
  The loop over the planned starts. It leaves either through the \<^verbatim>\<open>return\<close> inside
  (with the peak and the running maximum of that moment), or at its end (with the running
  maximum), or by an exception of \<^verbatim>\<open>seek\<close> or \<^verbatim>\<open>read\<close>. The reader's calls are logged.
\<close>

datatype loop_exit = Early_exit real real | Completed real

fun scan_chunks ::
  "real \<Rightarrow> soundfile \<Rightarrow> string \<Rightarrow> int \<Rightarrow> int list \<Rightarrow> real \<Rightarrow> call list
     \<Rightarrow> (exn + loop_exit) \<times> call list" where
  "scan_chunks thr f p frames_per_interval [] max_abs cs = (Inr (Completed max_abs), cs)"
| "scan_chunks thr f p frames_per_interval (start # rest) max_abs cs =
     (case sf_seek f start of
        Some e \<Rightarrow> (Inl e, cs @ [SeekCall p start])
      | None \<Rightarrow>
          (let cs = cs @ [SeekCall p start, ReadCall p frames_per_interval] in
           case sf_read f start frames_per_interval of
             Inl e \<Rightarrow> (Inl e, cs)
           | Inr data \<Rightarrow>
               if length data = 0 then scan_chunks thr f p frames_per_interval rest max_abs cs
               else
                 (case np_max (map abs data) of
                    Inl e \<Rightarrow> (Inl e, cs)
                  | Inr peak \<Rightarrow>
                      (let max_abs = max max_abs peak in
                       if peak > thr then (Inr (Early_exit peak max_abs), cs)
                       else scan_chunks thr f p frames_per_interval rest max_abs cs))))"

text \<open>The body of the \<^verbatim>\<open>try\<close>: it returns a result or raises.\<close>

definition scan_try ::
  "config \<Rightarrow> (real \<Rightarrow> string) \<Rightarrow> world \<Rightarrow> string \<Rightarrow> (exn + ScanResult) \<times> world" where
  "scan_try cfg fmt6g w wav_path =
     (let w = w\<lparr>calls := calls w @ [StatCall wav_path]\<rparr> in
      case path_stat w wav_path of
        Inl e \<Rightarrow> (Inl e, w)
      | Inr sz \<Rightarrow>
          if sz < MIN_SIZE_BYTES cfg then
            (Inr \<lparr>path = wav_path, decision = ''KEEP'',
                  detail = ''Below MIN_SIZE_BYTES ('' @ str_int sz @ '' < ''
                             @ str_int (MIN_SIZE_BYTES cfg) @ '').'',
                  size_bytes = sz, duration_sec = 0, samplerate = 0, channels = 0,
                  interval_seconds = INTERVAL_SECONDS cfg, num_samples_used = 0,
                  threshold = SILENCE_THRESHOLD cfg, max_abs_seen = 0\<rparr>, w)
          else
            (let w = w\<lparr>calls := calls w @ [OpenCall wav_path]\<rparr> in
             case soundfile_open w wav_path of
               Inl e \<Rightarrow> (Inl e, w)
             | Inr f \<Rightarrow>
                 (let sr = sf_samplerate f;
                      ch = sf_channels f;
                      total_frames = sf_frames f;
                      dur = (if sr > 0 then real_of_int total_frames / real_of_int sr else 0);
                      (starts, frames_per_interval) =
                         compute_sample_positions total_frames sr (INTERVAL_SECONDS cfg)
                           (NUM_SAMPLES_PER_FILE cfg)
                  in
                  if length starts = 0 then
                    (Inr \<lparr>path = wav_path, decision = ''ERROR'',
                          detail = ''Could not compute sample positions (invalid WAV metadata or empty audio).'',
                          size_bytes = sz, duration_sec = dur, samplerate = sr, channels = ch,
                          interval_seconds = INTERVAL_SECONDS cfg, num_samples_used = 0,
                          threshold = SILENCE_THRESHOLD cfg, max_abs_seen = 0\<rparr>, w)
                  else
                    (case scan_chunks (SILENCE_THRESHOLD cfg) f wav_path frames_per_interval
                            starts 0 (calls w) of
                       (Inl e, cs) \<Rightarrow> (Inl e, w\<lparr>calls := cs\<rparr>)
                     | (Inr (Early_exit peak max_abs), cs) \<Rightarrow>
                         (Inr \<lparr>path = wav_path, decision = ''KEEP'',
                               detail = ''Non-silent chunk found (peak='' @ fmt6g peak
                                          @ '' > threshold).'',
                               size_bytes = sz, duration_sec = dur, samplerate = sr,
                               channels = ch, interval_seconds = INTERVAL_SECONDS cfg,
                               num_samples_used = int (length starts),
                               threshold = SILENCE_THRESHOLD cfg, max_abs_seen = max_abs\<rparr>,
                          w\<lparr>calls := cs\<rparr>)
                     | (Inr (Completed max_abs), cs) \<Rightarrow>
                         (Inr \<lparr>path = wav_path, decision = ''SILENT'',
                               detail = ''All sampled chunks were below threshold.'',
                               size_bytes = sz, duration_sec = dur, samplerate = sr,
                               channels = ch, interval_seconds = INTERVAL_SECONDS cfg,
                               num_samples_used = int (length starts),
                               threshold = SILENCE_THRESHOLD cfg, max_abs_seen = max_abs\<rparr>,
                          w\<lparr>calls := cs\<rparr>)))))"

text \<open>The \<^verbatim>\<open>except Exception as e\<close> branch.\<close>

definition scan_wav_for_silence ::
  "config \<Rightarrow> (real \<Rightarrow> string) \<Rightarrow> world \<Rightarrow> string \<Rightarrow> ScanResult \<times> world" where
  "scan_wav_for_silence cfg fmt6g w wav_path =
     (case scan_try cfg fmt6g w wav_path of
        (Inr res, w') \<Rightarrow> (res, w')
      | (Inl e, w') \<Rightarrow>
          (\<lparr>path = wav_path, decision = ''ERROR'',
            detail = exn_type e @ '': '' @ exn_msg e,
            size_bytes = 0, duration_sec = 0, samplerate = 0, channels = 0,
            interval_seconds = INTERVAL_SECONDS cfg, num_samples_used = 0,
            threshold = SILENCE_THRESHOLD cfg, max_abs_seen = 0\<rparr>, w'))"

subsection \<open>main\<close>

record run_state =
  scanned :: int
  silent_candidates :: int
  deleted_count :: int
  error_count :: int
  bytes_candidate_savings :: int
  bytes_deleted_savings :: int
  report_rows :: "ScanResult list"
  env :: world

definition initial_state :: "world \<Rightarrow> run_state" where
  "initial_state w =
     \<lparr>scanned = 0, silent_candidates = 0, deleted_count = 0, error_count = 0,
      bytes_candidate_savings = 0, bytes_deleted_savings = 0, report_rows = [], env = w\<rparr>"

text \<open>The body of the loop over the files.\<close>

definition main_body ::
  "config \<Rightarrow> (real \<Rightarrow> string) \<Rightarrow> run_state \<Rightarrow> string \<Rightarrow> run_state" where
  "main_body cfg fmt6g st wav =
     (let st = st\<lparr>scanned := scanned st + 1\<rparr>;
          (res, w) = scan_wav_for_silence cfg fmt6g (env st) wav;
          st = st\<lparr>env := w\<rparr>
      in
      if decision res = ''SILENT'' then
        (let st = st\<lparr>silent_candidates := silent_candidates st + 1,
                      bytes_candidate_savings := bytes_candidate_savings st + size_bytes res,
                      report_rows := report_rows st @ [res]\<rparr>
         in
         if MODE cfg = ''DELETE'' then
           (case os_remove_path (env st) (path res) of
              (None, w) \<Rightarrow>
                st\<lparr>deleted_count := deleted_count st + 1,
                   bytes_deleted_savings := bytes_deleted_savings st + size_bytes res,
                   env := w\<rparr>
            | (Some e, w) \<Rightarrow>
                st\<lparr>error_count := error_count st + 1,
                   report_rows := report_rows st @
                     [\<lparr>path = path res, decision = ''ERROR'',
                       detail = ''Delete failed: '' @ exn_type e @ '': '' @ exn_msg e,
                       size_bytes = size_bytes res, duration_sec = duration_sec res,
                       samplerate = samplerate res, channels = channels res,
                       interval_seconds = interval_seconds res,
                       num_samples_used = num_samples_used res,
                       threshold = threshold res, max_abs_seen = max_abs_seen res\<rparr>],
                   env := w\<rparr>)
         else st)
      else if decision res = ''ERROR'' then
        st\<lparr>error_count := error_count st + 1, report_rows := report_rows st @ [res]\<rparr>
      else st)"

fun main_loop ::
  "config \<Rightarrow> (real \<Rightarrow> string) \<Rightarrow> string list \<Rightarrow> run_state \<Rightarrow> run_state" where
  "main_loop cfg fmt6g [] st = st"
| "main_loop cfg fmt6g (wav # rest) st = main_loop cfg fmt6g rest (main_body cfg fmt6g st wav)"

text \<open>
  \<^verbatim>\<open>main\<close>: the two checks before the loop, then the loop over the files that
  \<^verbatim>\<open>find_wav_files\<close> returned. The root, whether it is a directory, and the list of
  files are inputs; writing the report and printing the summary are left out.
\<close>

definition main ::
  "config \<Rightarrow> (real \<Rightarrow> string) \<Rightarrow> string \<Rightarrow> bool \<Rightarrow> string list \<Rightarrow> world
     \<Rightarrow> exn + run_state" where
  "main cfg fmt6g root_directory root_is_dir wav_files w =
     (if MODE cfg \<noteq> ''AUDIT'' \<and> MODE cfg \<noteq> ''DELETE'' then
        Inl (Exn ''ValueError''
               (''MODE must be '' @ [CHR 0x22] @ ''AUDIT'' @ [CHR 0x22] @ '' or ''
                  @ [CHR 0x22] @ ''DELETE'' @ [CHR 0x22]))
      else if \<not> root_is_dir then
        Inl (Exn ''FileNotFoundError'' (''ROOT_DIRECTORY is not a directory: '' @ root_directory))
      else Inr (main_loop cfg fmt6g wav_files (initial_state w)))"

subsection \<open>Notions of the specification\<close>


text \<open>
  A chunk contributes silence: the seek and the read at that start succeed and no sample
  of the chunk is above the threshold in absolute value (an empty chunk has no sample).
\<close>

definition chunk_silent :: "real \<Rightarrow> soundfile \<Rightarrow> int \<Rightarrow> int \<Rightarrow> bool" where
  "chunk_silent thr f frames_per_interval start =
     (sf_seek f start = None \<and>
      (case sf_read f start frames_per_interval of
         Inl e \<Rightarrow> False
       | Inr data \<Rightarrow> (\<forall>x\<in>set data. \<bar>x\<bar> \<le> thr)))"

text \<open>The samples a read at a start returns (none when it raises).\<close>

definition chunk_data :: "soundfile \<Rightarrow> int \<Rightarrow> int \<Rightarrow> real list" where
  "chunk_data f frames_per_interval start =
     (case sf_read f start frames_per_interval of Inl e \<Rightarrow> [] | Inr data \<Rightarrow> data)"

text \<open>The reader calls of one probed chunk, and the paths of the removal attempts in a log.\<close>

definition probe :: "string \<Rightarrow> int \<Rightarrow> int \<Rightarrow> call list" where
  "probe p frames_per_interval start = [SeekCall p start, ReadCall p frames_per_interval]"

fun removals :: "call list \<Rightarrow> string list" where
  "removals [] = []"
| "removals (RemoveCall p # cs) = p # removals cs"
| "removals (c # cs) = removals cs"

subsection \<open>A small file for the worked examples\<close>

definition example_reader :: "(int \<Rightarrow> int \<Rightarrow> exn + real list) \<Rightarrow> soundfile" where
  "example_reader rd =
     \<lparr>sf_samplerate = 1, sf_channels = 1, sf_frames = 10, sf_seek = (\<lambda>s. None), sf_read = rd\<rparr>"

definition example_world :: "wav_file \<Rightarrow> world" where
  "example_world fl = \<lparr>files = (\<lambda>p. if p = ''a.wav'' then Some fl else None), calls = []\<rparr>"

section \<open>Lemmas about the planner\<close>










section \<open>Lemmas about the scan loop\<close>

lemma np_max_abs:
  assumes "data \<noteq> []"
  shows "np_max (map abs data) = Inr (Max (abs ` set data))"
proof -
  from assms obtain x xs where d: "data = x # xs" by (cases data) auto
  have "Max (set (\<bar>x\<bar> # map abs xs)) = fold max (map abs xs) \<bar>x\<bar>"
    by (rule Max.set_eq_fold)
  then show ?thesis using d by simp
qed

lemma peak_nonneg:
  fixes data :: "real list"
  assumes "data \<noteq> []"
  shows "0 \<le> Max (abs ` set data)"
proof -
  from assms obtain x where x: "x \<in> set data" by (cases data) auto
  then have "\<bar>x\<bar> \<le> Max (abs ` set data)" by simp
  then show ?thesis by linarith
qed

lemma peak_le_iff:
  fixes data :: "real list"
  assumes "data \<noteq> []"
  shows "Max (abs ` set data) \<le> thr \<longleftrightarrow> (\<forall>x\<in>set data. \<bar>x\<bar> \<le> thr)"
  using assms by simp

lemma scan_chunks_result_log_free:
  "fst (scan_chunks thr f p n starts mx cs) = fst (scan_chunks thr f p n starts mx cs')"
proof (induction starts arbitrary: mx cs cs')
  case Nil
  show ?case by simp
next
  case (Cons s rest)
  show ?case
  proof (cases "sf_seek f s")
    case (Some e)
    then show ?thesis by simp
  next
    case None
    show ?thesis
    proof (cases "sf_read f s n")
      case (Inl e)
      with None show ?thesis by simp
    next
      case (Inr data)
      show ?thesis
      proof (cases "data = []")
        case True
        with None Inr show ?thesis using Cons.IH by simp
      next
        case False
        with None Inr show ?thesis using Cons.IH
          by (simp add: np_max_abs Let_def)
      qed
    qed
  qed
qed

lemma scan_chunks_step_silent:
  assumes "chunk_silent thr f n s"
  shows "scan_chunks thr f p n (s # rest) mx cs =
           scan_chunks thr f p n rest (Max (insert mx (abs ` set (chunk_data f n s))))
             (cs @ probe p n s)"
proof -
  from assms have seek: "sf_seek f s = None" by (simp add: chunk_silent_def)
  from assms obtain data where rd: "sf_read f s n = Inr data"
    and le: "\<forall>x\<in>set data. \<bar>x\<bar> \<le> thr"
    by (auto simp: chunk_silent_def split: sum.splits)
  show ?thesis
  proof (cases "data = []")
    case True
    with seek rd show ?thesis by (simp add: chunk_data_def probe_def)
  next
    case False
    define pk where "pk = Max (abs ` set data)"
    have np: "np_max (map abs data) = Inr pk"
      using False by (simp add: np_max_abs pk_def)
    have pk: "\<not> thr < pk" using le False by (simp add: pk_def not_less)
    have mx: "Max (insert mx (abs ` set (chunk_data f n s))) = max mx pk"
      using False rd by (simp add: chunk_data_def pk_def max.commute)
    show ?thesis
      unfolding mx using seek rd False np pk by (simp add: probe_def Let_def)
  qed
qed

lemma scan_chunks_step_loud:
  assumes "sf_seek f s = None" and "sf_read f s n = Inr data" and "data \<noteq> []"
    and "Max (abs ` set data) > thr"
  shows "scan_chunks thr f p n (s # rest) mx cs =
           (Inr (Early_exit (Max (abs ` set data)) (max mx (Max (abs ` set data)))),
            cs @ probe p n s)"
  using assms by (simp add: probe_def np_max_abs Let_def)


lemma Max_insert_insert:
  fixes mx :: real
  assumes "finite A" and "finite B"
  shows "Max (insert (Max (insert mx A)) B) = Max (insert mx (A \<union> B))"
proof -
  have "Max (insert mx (A \<union> B)) = Max (insert mx A \<union> insert (Max (insert mx A)) B)"
  proof (rule Max_eqI [symmetric])
    show "finite (insert mx A \<union> insert (Max (insert mx A)) B)" using assms by simp
    show "\<And>y. y \<in> insert mx A \<union> insert (Max (insert mx A)) B \<Longrightarrow> y \<le> Max (insert mx (A \<union> B))"
      using assms by (auto intro: Max_ge Max_mono)
    have "Max (insert mx (A \<union> B)) \<in> insert mx (A \<union> B)"
      using assms by (intro Max_in) auto
    then show "Max (insert mx (A \<union> B)) \<in> insert mx A \<union> insert (Max (insert mx A)) B" by auto
  qed
  also have "\<dots> = Max (insert (Max (insert mx A)) B)"
  proof (rule Max_eqI)
    show "finite (insert mx A \<union> insert (Max (insert mx A)) B)" using assms by simp
    show "\<And>y. y \<in> insert mx A \<union> insert (Max (insert mx A)) B \<Longrightarrow> y \<le> Max (insert (Max (insert mx A)) B)"
    proof -
      fix y assume "y \<in> insert mx A \<union> insert (Max (insert mx A)) B"
      then consider "y \<in> insert mx A" | "y \<in> insert (Max (insert mx A)) B" by auto
      then show "y \<le> Max (insert (Max (insert mx A)) B)"
      proof cases
        case 1
        then have "y \<le> Max (insert mx A)" using assms by (intro Max_ge) auto
        also have "\<dots> \<le> Max (insert (Max (insert mx A)) B)" using assms by (intro Max_ge) auto
        finally show ?thesis .
      next
        case 2
        then show ?thesis using assms by (intro Max_ge) auto
      qed
    qed
    have "Max (insert (Max (insert mx A)) B) \<in> insert (Max (insert mx A)) B"
      using assms by (intro Max_in) auto
    then show "Max (insert (Max (insert mx A)) B) \<in> insert mx A \<union> insert (Max (insert mx A)) B"
      by auto
  qed
  finally show ?thesis by simp
qed

lemma scan_chunks_all_silent:
  assumes "\<forall>s\<in>set starts. chunk_silent thr f n s"
  shows "scan_chunks thr f p n starts mx cs =
           (Inr (Completed (Max (insert mx (\<Union>s\<in>set starts. abs ` set (chunk_data f n s))))),
            cs @ concat (map (probe p n) starts))"
  using assms
proof (induction starts arbitrary: mx cs)
  case Nil
  show ?case by simp
next
  case (Cons s rest)
  then have s: "chunk_silent thr f n s" and r: "\<forall>s\<in>set rest. chunk_silent thr f n s"
    by simp_all
  have "Max (insert (Max (insert mx (abs ` set (chunk_data f n s))))
               (\<Union>s\<in>set rest. abs ` set (chunk_data f n s)))
        = Max (insert mx (abs ` set (chunk_data f n s) \<union> (\<Union>s\<in>set rest. abs ` set (chunk_data f n s))))"
    by (rule Max_insert_insert) simp_all
  then show ?case
    unfolding scan_chunks_step_silent [OF s] Cons.IH [OF r] by simp
qed

lemma scan_chunks_silent_prefix:
  assumes "\<forall>s\<in>set pre. chunk_silent thr f n s"
  shows "scan_chunks thr f p n (pre @ rest) mx cs =
           scan_chunks thr f p n rest
             (Max (insert mx (\<Union>s\<in>set pre. abs ` set (chunk_data f n s))))
             (cs @ concat (map (probe p n) pre))"
  using assms
proof (induction pre arbitrary: mx cs)
  case Nil
  show ?case by simp
next
  case (Cons s pre)
  then have s: "chunk_silent thr f n s" and r: "\<forall>s\<in>set pre. chunk_silent thr f n s"
    by simp_all
  have m: "Max (insert (Max (insert mx (abs ` set (chunk_data f n s))))
               (\<Union>s\<in>set pre. abs ` set (chunk_data f n s)))
        = Max (insert mx (abs ` set (chunk_data f n s) \<union> (\<Union>s\<in>set pre. abs ` set (chunk_data f n s))))"
    by (rule Max_insert_insert) simp_all
  have "scan_chunks thr f p n ((s # pre) @ rest) mx cs
          = scan_chunks thr f p n (pre @ rest) (Max (insert mx (abs ` set (chunk_data f n s))))
              (cs @ probe p n s)"
    using scan_chunks_step_silent [OF s] by simp
  also have "\<dots> = scan_chunks thr f p n rest
             (Max (insert (Max (insert mx (abs ` set (chunk_data f n s))))
               (\<Union>s\<in>set pre. abs ` set (chunk_data f n s))))
             ((cs @ probe p n s) @ concat (map (probe p n) pre))"
    by (rule Cons.IH [OF r])
  finally show ?case using m by simp
qed

lemma silent_prefix_max_le:
  fixes bound :: real
  assumes "\<forall>s\<in>set pre. chunk_silent thr f n s" and "thr \<le> bound" and "mx \<le> bound"
  shows "Max (insert mx (\<Union>s\<in>set pre. abs ` set (chunk_data f n s))) \<le> bound"
proof -
  have "\<And>y. y \<in> (\<Union>s\<in>set pre. abs ` set (chunk_data f n s)) \<Longrightarrow> y \<le> bound"
  proof -
    fix y assume "y \<in> (\<Union>s\<in>set pre. abs ` set (chunk_data f n s))"
    then obtain s x where s: "s \<in> set pre" and x: "x \<in> set (chunk_data f n s)" and y: "y = \<bar>x\<bar>"
      by auto
    from assms(1) s have "chunk_silent thr f n s" by simp
    with x have "\<bar>x\<bar> \<le> thr"
      by (auto simp: chunk_silent_def chunk_data_def split: sum.splits)
    with y assms(2) show "y \<le> bound" by simp
  qed
  with assms(3) show ?thesis by simp
qed

lemma split_at_index:
  assumes "k < length xs"
  shows "xs = take k xs @ xs ! k # drop (Suc k) xs" and "take (Suc k) xs = take k xs @ [xs ! k]"
  using assms by (simp_all add: id_take_nth_drop take_Suc_conv_app_nth)

lemma prefix_silent:
  assumes "k \<le> length xs" and "\<forall>j<k. chunk_silent thr f n (xs ! j)"
  shows "\<forall>s\<in>set (take k xs). chunk_silent thr f n s"
proof
  fix s assume "s \<in> set (take k xs)"
  then obtain j where "j < length (take k xs)" and "take k xs ! j = s"
    by (auto simp: in_set_conv_nth)
  with assms show "chunk_silent thr f n s" by auto
qed

lemma scan_chunks_first_loud:
  assumes "k < length starts"
    and "\<forall>j<k. chunk_silent thr f n (starts ! j)"
    and "sf_seek f (starts ! k) = None" and "sf_read f (starts ! k) n = Inr data"
    and "data \<noteq> []" and "thr < Max (abs ` set data)" and "mx \<le> Max (abs ` set data)"
  shows "scan_chunks thr f p n starts mx cs =
           (Inr (Early_exit (Max (abs ` set data)) (Max (abs ` set data))),
            cs @ concat (map (probe p n) (take (Suc k) starts)))"
proof -
  define pre where "pre = take k starts"
  define post where "post = drop (Suc k) starts"
  have sp: "starts = pre @ starts ! k # post" and tk: "take (Suc k) starts = pre @ [starts ! k]"
    using split_at_index [OF assms(1)] by (simp_all add: pre_def post_def)
  have ps: "\<forall>s\<in>set pre. chunk_silent thr f n s"
    unfolding pre_def using assms(1,2) by (intro prefix_silent) simp_all
  define mx' where "mx' = Max (insert mx (\<Union>s\<in>set pre. abs ` set (chunk_data f n s)))"
  have le: "mx' \<le> Max (abs ` set data)"
    unfolding mx'_def using ps assms(6,7) by (intro silent_prefix_max_le [where thr = thr]) simp_all
  have "scan_chunks thr f p n starts mx cs
          = scan_chunks thr f p n (pre @ starts ! k # post) mx cs"
    using sp by simp
  also have "\<dots> = scan_chunks thr f p n (starts ! k # post) mx' (cs @ concat (map (probe p n) pre))"
    unfolding mx'_def by (rule scan_chunks_silent_prefix [OF ps])
  also have "\<dots> = (Inr (Early_exit (Max (abs ` set data)) (max mx' (Max (abs ` set data)))),
                     (cs @ concat (map (probe p n) pre)) @ probe p n (starts ! k))"
    by (rule scan_chunks_step_loud [OF assms(3,4,5,6)])
  finally show ?thesis using le tk by (simp add: max_def)
qed

lemma scan_chunks_first_failure:
  assumes "k < length starts"
    and "\<forall>j<k. chunk_silent thr f n (starts ! j)"
    and "sf_seek f (starts ! k) = Some e
           \<or> sf_seek f (starts ! k) = None \<and> sf_read f (starts ! k) n = Inl e"
  shows "fst (scan_chunks thr f p n starts mx cs) = Inl e"
proof -
  define pre where "pre = take k starts"
  define post where "post = drop (Suc k) starts"
  have sp: "starts = pre @ starts ! k # post"
    using split_at_index [OF assms(1)] by (simp_all add: pre_def post_def)
  have ps: "\<forall>s\<in>set pre. chunk_silent thr f n s"
    unfolding pre_def using assms(1,2) by (intro prefix_silent) simp_all
  have "scan_chunks thr f p n starts mx cs
          = scan_chunks thr f p n (pre @ starts ! k # post) mx cs"
    using sp by simp
  also have "\<dots> = scan_chunks thr f p n (starts ! k # post)
                      (Max (insert mx (\<Union>s\<in>set pre. abs ` set (chunk_data f n s))))
                      (cs @ concat (map (probe p n) pre))"
    by (rule scan_chunks_silent_prefix [OF ps])
  finally show ?thesis using assms(3) by auto
qed


lemma path_stat_calls [simp]: "path_stat (w\<lparr>calls := cs\<rparr>) p = path_stat w p"
  by (simp add: path_stat_def)

lemma soundfile_open_calls [simp]: "soundfile_open (w\<lparr>calls := cs\<rparr>) p = soundfile_open w p"
  by (simp add: soundfile_open_def)

lemma plan_nonempty_rate:
  assumes "compute_sample_positions tf sr iv num = (starts, n)" and "starts \<noteq> []"
  shows "sr > 0"
  using assms by (auto simp: compute_sample_positions_def Let_def split: if_splits)

lemma scan_try_reaches_loop:
  assumes "path_stat w p = Inr sz" and "\<not> sz < MIN_SIZE_BYTES cfg"
    and "soundfile_open w p = Inr f"
    and "compute_sample_positions (sf_frames f) (sf_samplerate f) (INTERVAL_SECONDS cfg)
           (NUM_SAMPLES_PER_FILE cfg) = (starts, n)"
    and "starts \<noteq> []"
  shows "scan_try cfg fmt6g w p =
     (case scan_chunks (SILENCE_THRESHOLD cfg) f p n starts 0
             (calls w @ [StatCall p, OpenCall p]) of
        (Inl e, cs) \<Rightarrow> (Inl e, w\<lparr>calls := cs\<rparr>)
      | (Inr (Early_exit peak max_abs), cs) \<Rightarrow>
          (Inr \<lparr>path = p, decision = ''KEEP'',
                detail = ''Non-silent chunk found (peak='' @ fmt6g peak @ '' > threshold).'',
                size_bytes = sz,
                duration_sec = real_of_int (sf_frames f) / real_of_int (sf_samplerate f),
                samplerate = sf_samplerate f, channels = sf_channels f,
                interval_seconds = INTERVAL_SECONDS cfg,
                num_samples_used = int (length starts),
                threshold = SILENCE_THRESHOLD cfg, max_abs_seen = max_abs\<rparr>,
           w\<lparr>calls := cs\<rparr>)
      | (Inr (Completed max_abs), cs) \<Rightarrow>
          (Inr \<lparr>path = p, decision = ''SILENT'',
                detail = ''All sampled chunks were below threshold.'',
                size_bytes = sz,
                duration_sec = real_of_int (sf_frames f) / real_of_int (sf_samplerate f),
                samplerate = sf_samplerate f, channels = sf_channels f,
                interval_seconds = INTERVAL_SECONDS cfg,
                num_samples_used = int (length starts),
                threshold = SILENCE_THRESHOLD cfg, max_abs_seen = max_abs\<rparr>,
           w\<lparr>calls := cs\<rparr>))"
proof -
  have "sf_samplerate f > 0" using plan_nonempty_rate [OF assms(4,5)] .
  then show ?thesis using assms
    by (simp add: scan_try_def Let_def split: prod.splits sum.splits loop_exit.splits)
qed

lemma example_plan: "compute_sample_positions 10 1 7 16 = ([0, 1, 2, 3], 7)"
  by (simp add: compute_sample_positions_def np_linspace_int_def np_unique_def Let_def upt_rec)

section \<open>Lemmas about the plan's offsets and the main loop\<close>



lemma removals_append: "removals (xs @ ys) = removals xs @ removals ys"
  by (induction xs rule: removals.induct) simp_all

lemma scan_chunks_log:
  "\<exists>ext. snd (scan_chunks thr f p n starts mx cs) = cs @ ext \<and> removals ext = []"
proof (induction starts arbitrary: mx cs)
  case Nil
  show ?case by simp
next
  case (Cons s rest)
  show ?case
  proof (cases "sf_seek f s")
    case (Some e)
    then show ?thesis by simp
  next
    case None
    let ?cs = "cs @ [SeekCall p s, ReadCall p n]"
    have step: "\<exists>ext. snd (scan_chunks thr f p n rest m ?cs) = cs @ ext \<and> removals ext = []" for m
    proof -
      from Cons.IH [of m ?cs] obtain ext
        where "snd (scan_chunks thr f p n rest m ?cs) = ?cs @ ext" and "removals ext = []"
        by blast
      then have "snd (scan_chunks thr f p n rest m ?cs) = cs @ ([SeekCall p s, ReadCall p n] @ ext)
                   \<and> removals ([SeekCall p s, ReadCall p n] @ ext) = []"
        by simp
      then show ?thesis by blast
    qed
    show ?thesis
    proof (cases "sf_read f s n")
      case (Inl e)
      with None show ?thesis by simp
    next
      case (Inr data)
      show ?thesis
      proof (cases "data = []")
        case True
        with None Inr show ?thesis using step by simp
      next
        case False
        with None Inr show ?thesis using step
          by (simp add: np_max_abs Let_def)
      qed
    qed
  qed
qed

lemma scan_try_world:
  "files (snd (scan_try cfg fmt6g w p)) = files w
   \<and> (\<exists>ext. calls (snd (scan_try cfg fmt6g w p)) = calls w @ ext \<and> removals ext = [])"
proof (cases "path_stat w p")
  case (Inl e)
  then show ?thesis by (simp add: scan_try_def Let_def)
next
  case sz: (Inr sz)
  show ?thesis
  proof (cases "sz < MIN_SIZE_BYTES cfg")
    case True
    with sz show ?thesis by (simp add: scan_try_def Let_def)
  next
    case gate: False
    show ?thesis
    proof (cases "soundfile_open w p")
      case (Inl e)
      with sz gate show ?thesis by (simp add: scan_try_def Let_def)
    next
      case f: (Inr f)
      obtain starts n where pl: "compute_sample_positions (sf_frames f) (sf_samplerate f)
             (INTERVAL_SECONDS cfg) (NUM_SAMPLES_PER_FILE cfg) = (starts, n)"
        by (cases "compute_sample_positions (sf_frames f) (sf_samplerate f)
             (INTERVAL_SECONDS cfg) (NUM_SAMPLES_PER_FILE cfg)")
      show ?thesis
      proof (cases "starts = []")
        case True
        with sz gate f pl show ?thesis by (simp add: scan_try_def Let_def)
      next
        case False
        obtain r cs where run: "scan_chunks (SILENCE_THRESHOLD cfg) f p n starts 0
             (calls w @ [StatCall p, OpenCall p]) = (r, cs)"
          by (cases "scan_chunks (SILENCE_THRESHOLD cfg) f p n starts 0
             (calls w @ [StatCall p, OpenCall p])")
        from scan_chunks_log [of "SILENCE_THRESHOLD cfg" f p n starts 0
             "calls w @ [StatCall p, OpenCall p]"] run
        obtain ext where "cs = (calls w @ [StatCall p, OpenCall p]) @ ext" and "removals ext = []"
          by auto
        then have ext: "cs = calls w @ ([StatCall p, OpenCall p] @ ext)
                  \<and> removals ([StatCall p, OpenCall p] @ ext) = []" by simp
        have "snd (scan_try cfg fmt6g w p) = w\<lparr>calls := cs\<rparr>"
          unfolding scan_try_reaches_loop [OF sz gate f pl False] run
          by (simp split: sum.splits loop_exit.splits)
        then have "files (snd (scan_try cfg fmt6g w p)) = files w"
          and "calls (snd (scan_try cfg fmt6g w p)) = calls w @ ([StatCall p, OpenCall p] @ ext)"
          using ext by simp_all
        with ext show ?thesis by blast
      qed
    qed
  qed
qed

lemma scan_world:
  "files (snd (scan_wav_for_silence cfg fmt6g w p)) = files w
   \<and> removals (calls (snd (scan_wav_for_silence cfg fmt6g w p))) = removals (calls w)"
proof -
  have "snd (scan_wav_for_silence cfg fmt6g w p) = snd (scan_try cfg fmt6g w p)"
    by (simp add: scan_wav_for_silence_def split: prod.splits sum.splits)
  then show ?thesis
    using scan_try_world [of cfg fmt6g w p] by (auto simp: removals_append)
qed

lemma scan_path: "path (fst (scan_wav_for_silence cfg fmt6g w p)) = p"
proof -
  have "\<And>r. fst (scan_try cfg fmt6g w p) = Inr r \<Longrightarrow> path r = p"
    by (auto simp: scan_try_def Let_def split: sum.splits if_splits prod.splits loop_exit.splits)
  then show ?thesis
    by (auto simp: scan_wav_for_silence_def split: prod.splits sum.splits)
qed

lemma os_remove_path_calls:
  "calls (snd (os_remove_path w p)) = calls w @ [RemoveCall p]"
  by (simp add: os_remove_path_def Let_def split: option.splits)

lemma os_remove_path_failed:
  "os_remove_path w p = (Some e, w') \<Longrightarrow> files w' = files w"
  by (auto simp: os_remove_path_def Let_def split: option.splits)

text \<open>What one pass of the loop body does, by the scan's result and the removal's outcome.\<close>

lemma main_body_not_silent:
  assumes "scan_wav_for_silence cfg fmt6g (env st) wav = (res, w1)"
    and "decision res \<noteq> ''SILENT''"
  shows "main_body cfg fmt6g st wav =
           (if decision res = ''ERROR''
            then st\<lparr>scanned := scanned st + 1, env := w1,
                    error_count := error_count st + 1,
                    report_rows := report_rows st @ [res]\<rparr>
            else st\<lparr>scanned := scanned st + 1, env := w1\<rparr>)"
  using assms by (simp add: main_body_def Let_def)

lemma main_body_silent_audit:
  assumes "scan_wav_for_silence cfg fmt6g (env st) wav = (res, w1)"
    and "decision res = ''SILENT''" and "MODE cfg \<noteq> ''DELETE''"
  shows "main_body cfg fmt6g st wav =
           st\<lparr>scanned := scanned st + 1, env := w1,
              silent_candidates := silent_candidates st + 1,
              bytes_candidate_savings := bytes_candidate_savings st + size_bytes res,
              report_rows := report_rows st @ [res]\<rparr>"
  using assms by (simp add: main_body_def Let_def)

lemma main_body_silent_deleted:
  assumes "scan_wav_for_silence cfg fmt6g (env st) wav = (res, w1)"
    and "decision res = ''SILENT''" and "MODE cfg = ''DELETE''"
    and "os_remove_path w1 wav = (None, w2)"
  shows "main_body cfg fmt6g st wav =
           st\<lparr>scanned := scanned st + 1,
              silent_candidates := silent_candidates st + 1,
              bytes_candidate_savings := bytes_candidate_savings st + size_bytes res,
              report_rows := report_rows st @ [res],
              deleted_count := deleted_count st + 1,
              bytes_deleted_savings := bytes_deleted_savings st + size_bytes res,
              env := w2\<rparr>"
proof -
  have "path res = wav" using scan_path [of cfg fmt6g "env st" wav] assms(1) by simp
  then show ?thesis using assms by (simp add: main_body_def Let_def)
qed

lemma main_body_silent_delete_failed:
  assumes "scan_wav_for_silence cfg fmt6g (env st) wav = (res, w1)"
    and "decision res = ''SILENT''" and "MODE cfg = ''DELETE''"
    and "os_remove_path w1 wav = (Some e, w2)"
  shows "main_body cfg fmt6g st wav =
           st\<lparr>scanned := scanned st + 1,
              silent_candidates := silent_candidates st + 1,
              bytes_candidate_savings := bytes_candidate_savings st + size_bytes res,
              error_count := error_count st + 1,
              report_rows := report_rows st @
                 [res, res\<lparr>decision := ''ERROR'',
                           detail := ''Delete failed: '' @ exn_type e @ '': '' @ exn_msg e\<rparr>],
              env := w2\<rparr>"
proof -
  have "path res = wav" using scan_path [of cfg fmt6g "env st" wav] assms(1) by simp
  then show ?thesis using assms by (cases res) (simp add: main_body_def Let_def)
qed

lemma main_body_rows:
  "\<exists>ext. report_rows (main_body cfg fmt6g st wav) = report_rows st @ ext
         \<and> (\<forall>r\<in>set ext. path r = wav)"
proof -
  obtain res w1 where sc: "scan_wav_for_silence cfg fmt6g (env st) wav = (res, w1)"
    by (cases "scan_wav_for_silence cfg fmt6g (env st) wav")
  have p: "path res = wav" using scan_path [of cfg fmt6g "env st" wav] sc by simp
  show ?thesis
  proof (cases "decision res = ''SILENT''")
    case False
    show ?thesis unfolding main_body_not_silent [OF sc False] using p by simp
  next
    case True
    show ?thesis
    proof (cases "MODE cfg = ''DELETE''")
      case False
      show ?thesis unfolding main_body_silent_audit [OF sc True False] using p by simp
    next
      case del: True
      obtain r w2 where rm: "os_remove_path w1 wav = (r, w2)" by (cases "os_remove_path w1 wav")
      show ?thesis
      proof (cases r)
        case None
        show ?thesis
          unfolding main_body_silent_deleted [OF sc True del rm [unfolded None]] using p by simp
      next
        case (Some e)
        show ?thesis
          unfolding main_body_silent_delete_failed [OF sc True del rm [unfolded Some]]
          using p by simp
      qed
    qed
  qed
qed

lemma main_loop_rows:
  "\<exists>ext. report_rows (main_loop cfg fmt6g ps st) = report_rows st @ ext
         \<and> (\<forall>r\<in>set ext. path r \<in> set ps)"
proof (induction ps arbitrary: st)
  case Nil
  show ?case by simp
next
  case (Cons q ps)
  from main_body_rows [of cfg fmt6g st q] obtain e1
    where e1: "report_rows (main_body cfg fmt6g st q) = report_rows st @ e1"
      and p1: "\<forall>r\<in>set e1. path r = q" by blast
  from Cons.IH [of "main_body cfg fmt6g st q"] obtain e2
    where e2: "report_rows (main_loop cfg fmt6g ps (main_body cfg fmt6g st q))
                 = report_rows (main_body cfg fmt6g st q) @ e2"
      and p2: "\<forall>r\<in>set e2. path r \<in> set ps" by blast
  have "report_rows (main_loop cfg fmt6g (q # ps) st) = report_rows st @ (e1 @ e2)"
    using e1 e2 by simp
  moreover have "\<forall>r\<in>set (e1 @ e2). path r \<in> set (q # ps)" using p1 p2 by auto
  ultimately show ?case by blast
qed

lemma main_loop_append:
  "main_loop cfg fmt6g (xs @ ys) st = main_loop cfg fmt6g ys (main_loop cfg fmt6g xs st)"
  by (induction xs arbitrary: st) simp_all

lemma example_scan_empty_reads:
  "scan_wav_for_silence (default_config\<lparr>MODE := m\<rparr>) fmt6g
       (example_world \<lparr>st_size = Inr 64, sf_open = Inr (example_reader (\<lambda>s k. Inr [])),
          os_remove = rm\<rparr>) ''a.wav''
     = (\<lparr>path = ''a.wav'', decision = ''SILENT'',
         detail = ''All sampled chunks were below threshold.'',
         size_bytes = 64, duration_sec = 10, samplerate = 1, channels = 1,
         interval_seconds = 7, num_samples_used = 4, threshold = 1 / 10000,
         max_abs_seen = 0\<rparr>,
        (example_world \<lparr>st_size = Inr 64, sf_open = Inr (example_reader (\<lambda>s k. Inr [])),
          os_remove = rm\<rparr>)
          \<lparr>calls := [StatCall ''a.wav'', OpenCall ''a.wav'',
                     SeekCall ''a.wav'' 0, ReadCall ''a.wav'' 7,
                     SeekCall ''a.wav'' 1, ReadCall ''a.wav'' 7,
                     SeekCall ''a.wav'' 2, ReadCall ''a.wav'' 7,
                     SeekCall ''a.wav'' 3, ReadCall ''a.wav'' 7]\<rparr>)"
  by (simp add: scan_wav_for_silence_def scan_try_def path_stat_def soundfile_open_def
        example_world_def example_reader_def default_config_def example_plan)

section \<open>Properties of the planner\<close>

text \<open>
  C5. For every valid input (sample rate, total frames and frames per chunk all positive)
  whose total frame count is at most the frames per chunk, the plan is exactly the one
  offset 0, whatever sample count is requested.
\<close>

theorem short_file_single_offset:
  assumes "sr > 0" and "total_frames > 0" and "sr * iv > 0"
    and "total_frames \<le> sr * iv"
  shows "compute_sample_positions total_frames sr iv num_samples
           = ([0], sr * iv)"
  using assms by (simp add: compute_sample_positions_def Let_def)

theorem short_file_single_offset_witness:
  "(48000::int) > 0 \<and> (1000::int) > 0 \<and> (48000::int) * 7 > 0 \<and> (1000::int) \<le> 48000 * 7
     \<and> compute_sample_positions 1000 48000 7 16 = ([0], 48000 * 7)"
  using short_file_single_offset [of 48000 1000 7 16] by simp

section \<open>Properties of the classifier\<close>



text \<open>
  C2. When the chunk at index \<open>k\<close> of the plan is the first whose peak is above the
  threshold (all chunks before it were read and contribute silence), the classifier returns
  KEEP with \<open>max_abs_seen\<close> equal to that chunk's peak, \<open>num_samples_used\<close> equal to the
  number of planned starts, and a detail that cites the peak; the reader was called for the
  first \<open>k + 1\<close> starts only.
\<close>

theorem early_exit_keep:
  assumes "path_stat w p = Inr sz" and "\<not> sz < MIN_SIZE_BYTES cfg"
    and "soundfile_open w p = Inr f"
    and "compute_sample_positions (sf_frames f) (sf_samplerate f) (INTERVAL_SECONDS cfg)
           (NUM_SAMPLES_PER_FILE cfg) = (starts, n)"
    and "k < length starts"
    and "\<forall>j<k. chunk_silent (SILENCE_THRESHOLD cfg) f n (starts ! j)"
    and "sf_seek f (starts ! k) = None" and "sf_read f (starts ! k) n = Inr data"
    and "data \<noteq> []"
    and "SILENCE_THRESHOLD cfg < Max (abs ` set data)"
  shows "scan_wav_for_silence cfg fmt6g w p =
     (\<lparr>path = p, decision = ''KEEP'',
       detail = ''Non-silent chunk found (peak='' @ fmt6g (Max (abs ` set data))
                  @ '' > threshold).'',
       size_bytes = sz,
       duration_sec = real_of_int (sf_frames f) / real_of_int (sf_samplerate f),
       samplerate = sf_samplerate f, channels = sf_channels f,
       interval_seconds = INTERVAL_SECONDS cfg,
       num_samples_used = int (length starts),
       threshold = SILENCE_THRESHOLD cfg,
       max_abs_seen = Max (abs ` set data)\<rparr>,
      w\<lparr>calls := calls w @ [StatCall p, OpenCall p]
                      @ concat (map (probe p n) (take (Suc k) starts))\<rparr>)"
proof -
  have ne: "starts \<noteq> []" using assms(5) by auto
  have "0 \<le> Max (abs ` set data)" using assms(9) by (rule peak_nonneg)
  then have run: "scan_chunks (SILENCE_THRESHOLD cfg) f p n starts 0
            (calls w @ [StatCall p, OpenCall p])
          = (Inr (Early_exit (Max (abs ` set data)) (Max (abs ` set data))),
             (calls w @ [StatCall p, OpenCall p])
               @ concat (map (probe p n) (take (Suc k) starts)))"
    by (intro scan_chunks_first_loud [OF assms(5-10)])
  show ?thesis
    unfolding scan_wav_for_silence_def scan_try_reaches_loop [OF assms(1-4) ne] run by simp
qed

theorem early_exit_keep_witness:
  "scan_wav_for_silence default_config (\<lambda>x. ''0.5'')
       (example_world \<lparr>st_size = Inr 64,
          sf_open = Inr (example_reader (\<lambda>s k. if s = 1 then Inr [3 / 100, - 1 / 2] else Inr [0])),
          os_remove = None\<rparr>) ''a.wav''
     = (\<lparr>path = ''a.wav'', decision = ''KEEP'',
         detail = ''Non-silent chunk found (peak=0.5 > threshold).'',
         size_bytes = 64, duration_sec = 10, samplerate = 1, channels = 1,
         interval_seconds = 7, num_samples_used = 4, threshold = 1 / 10000,
         max_abs_seen = 1 / 2\<rparr>,
        (example_world \<lparr>st_size = Inr 64,
          sf_open = Inr (example_reader (\<lambda>s k. if s = 1 then Inr [3 / 100, - 1 / 2] else Inr [0])),
          os_remove = None\<rparr>)
          \<lparr>calls := [StatCall ''a.wav'', OpenCall ''a.wav'', SeekCall ''a.wav'' 0,
                     ReadCall ''a.wav'' 7, SeekCall ''a.wav'' 1, ReadCall ''a.wav'' 7]\<rparr>)"
proof -
  let ?f = "example_reader (\<lambda>s k. if s = 1 then Inr [3 / 100, - 1 / 2] else Inr [0])"
  let ?w = "example_world \<lparr>st_size = Inr 64, sf_open = Inr ?f, os_remove = None\<rparr>"
  have a: "path_stat ?w ''a.wav'' = Inr 64"
    by (simp add: path_stat_def example_world_def)
  have b: "\<not> 64 < MIN_SIZE_BYTES default_config"
    by (simp add: default_config_def)
  have c: "soundfile_open ?w ''a.wav'' = Inr ?f"
    by (simp add: soundfile_open_def example_world_def)
  have d: "compute_sample_positions (sf_frames ?f) (sf_samplerate ?f)
             (INTERVAL_SECONDS default_config) (NUM_SAMPLES_PER_FILE default_config)
           = ([0, 1, 2, 3], 7)"
    by (simp add: example_reader_def default_config_def example_plan)
  have k: "(1::nat) < length [0, 1, 2, 3 :: int]" by simp
  have q: "\<forall>j<1::nat. chunk_silent (SILENCE_THRESHOLD default_config) ?f 7 ([0, 1, 2, 3] ! j)"
    by (simp add: chunk_silent_def example_reader_def default_config_def)
  have s: "sf_seek ?f ([0, 1, 2, 3] ! 1) = None"
    by (simp add: example_reader_def)
  have r: "sf_read ?f ([0, 1, 2, 3] ! 1) 7 = Inr [3 / 100, - 1 / 2]"
    by (simp add: example_reader_def)
  have ne: "[3 / 100, - 1 / 2] \<noteq> ([] :: real list)" by simp
  have M: "Max (abs ` set [3 / 100, - 1 / 2 :: real]) = 1 / 2" by simp
  have loud: "SILENCE_THRESHOLD default_config < Max (abs ` set [3 / 100, - 1 / 2 :: real])"
    unfolding M by (simp add: default_config_def)
  have cs: "calls ?w = []" by (simp add: example_world_def)
  from early_exit_keep [OF a b c d k q s r ne loud, of "\<lambda>x. ''0.5''"] show ?thesis
    unfolding M cs by (simp add: default_config_def example_reader_def probe_def)
qed



text \<open>
  C10. When the plan is not empty and every planned read returns no data, the classifier
  returns SILENT with \<open>max_abs_seen = 0\<close> and \<open>num_samples_used\<close> equal to the number of
  planned starts.
\<close>

theorem all_reads_empty_silent:
  assumes "path_stat w p = Inr sz" and "\<not> sz < MIN_SIZE_BYTES cfg"
    and "soundfile_open w p = Inr f"
    and "compute_sample_positions (sf_frames f) (sf_samplerate f) (INTERVAL_SECONDS cfg)
           (NUM_SAMPLES_PER_FILE cfg) = (starts, n)"
    and "starts \<noteq> []"
    and "\<forall>s\<in>set starts. sf_seek f s = None \<and> sf_read f s n = Inr []"
  shows "scan_wav_for_silence cfg fmt6g w p =
     (\<lparr>path = p, decision = ''SILENT'',
       detail = ''All sampled chunks were below threshold.'',
       size_bytes = sz,
       duration_sec = real_of_int (sf_frames f) / real_of_int (sf_samplerate f),
       samplerate = sf_samplerate f, channels = sf_channels f,
       interval_seconds = INTERVAL_SECONDS cfg,
       num_samples_used = int (length starts),
       threshold = SILENCE_THRESHOLD cfg,
       max_abs_seen = 0\<rparr>,
      w\<lparr>calls := calls w @ [StatCall p, OpenCall p] @ concat (map (probe p n) starts)\<rparr>)"
proof -
  have sil: "\<forall>s\<in>set starts. chunk_silent (SILENCE_THRESHOLD cfg) f n s"
    using assms(6) by (simp add: chunk_silent_def)
  have "(\<Union>s\<in>set starts. abs ` set (chunk_data f n s)) = {}"
    using assms(6) by (simp add: chunk_data_def)
  then have run: "scan_chunks (SILENCE_THRESHOLD cfg) f p n starts 0
            (calls w @ [StatCall p, OpenCall p])
          = (Inr (Completed 0),
             (calls w @ [StatCall p, OpenCall p]) @ concat (map (probe p n) starts))"
    using scan_chunks_all_silent [OF sil, of p 0 "calls w @ [StatCall p, OpenCall p]"] by simp
  show ?thesis
    unfolding scan_wav_for_silence_def scan_try_reaches_loop [OF assms(1-5)] run by simp
qed

theorem all_reads_empty_silent_witness:
  "scan_wav_for_silence default_config (\<lambda>x. ''?'')
       (example_world \<lparr>st_size = Inr 64, sf_open = Inr (example_reader (\<lambda>s k. Inr [])),
          os_remove = None\<rparr>) ''a.wav''
     = (\<lparr>path = ''a.wav'', decision = ''SILENT'',
         detail = ''All sampled chunks were below threshold.'',
         size_bytes = 64, duration_sec = 10, samplerate = 1, channels = 1,
         interval_seconds = 7, num_samples_used = 4, threshold = 1 / 10000,
         max_abs_seen = 0\<rparr>,
        (example_world \<lparr>st_size = Inr 64, sf_open = Inr (example_reader (\<lambda>s k. Inr [])),
          os_remove = None\<rparr>)
          \<lparr>calls := [StatCall ''a.wav'', OpenCall ''a.wav'',
                     SeekCall ''a.wav'' 0, ReadCall ''a.wav'' 7,
                     SeekCall ''a.wav'' 1, ReadCall ''a.wav'' 7,
                     SeekCall ''a.wav'' 2, ReadCall ''a.wav'' 7,
                     SeekCall ''a.wav'' 3, ReadCall ''a.wav'' 7]\<rparr>)"
proof -
  let ?f = "example_reader (\<lambda>s k. Inr [])"
  let ?w = "example_world \<lparr>st_size = Inr 64, sf_open = Inr ?f, os_remove = None\<rparr>"
  have a: "path_stat ?w ''a.wav'' = Inr 64"
    by (simp add: path_stat_def example_world_def)
  have b: "\<not> 64 < MIN_SIZE_BYTES default_config"
    by (simp add: default_config_def)
  have c: "soundfile_open ?w ''a.wav'' = Inr ?f"
    by (simp add: soundfile_open_def example_world_def)
  have d: "compute_sample_positions (sf_frames ?f) (sf_samplerate ?f)
             (INTERVAL_SECONDS default_config) (NUM_SAMPLES_PER_FILE default_config)
           = ([0, 1, 2, 3], 7)"
    by (simp add: example_reader_def default_config_def example_plan)
  have e: "[0, 1, 2, 3] \<noteq> ([] :: int list)" by simp
  have r: "\<forall>s\<in>set [0, 1, 2, 3]. sf_seek ?f s = None \<and> sf_read ?f s 7 = Inr []"
    by (simp add: example_reader_def)
  have cs: "calls ?w = []" by (simp add: example_world_def)
  from all_reads_empty_silent [OF a b c d e r, of "\<lambda>x. ''?''"] show ?thesis
    unfolding cs by (simp add: default_config_def example_reader_def probe_def)
qed

text \<open>
  C4. The classifier always returns a scan result (its type has no failure channel). When
  the stat raises, or the open raises, or a seek or a read raises at a planned start that
  the loop reaches, or the body of the \<^verbatim>\<open>try\<close> raises in any other way, the result is an
  ERROR whose detail is the exception's type name and message, with size, duration, sample
  rate, channels, \<open>num_samples_used\<close> and \<open>max_abs_seen\<close> all zero.
\<close>

theorem failures_become_error_results:
  assumes "path_stat w p = Inl e
         \<or> (\<exists>sz. path_stat w p = Inr sz \<and> \<not> sz < MIN_SIZE_BYTES cfg
                 \<and> soundfile_open w p = Inl e)
         \<or> (\<exists>sz f starts n k. path_stat w p = Inr sz \<and> \<not> sz < MIN_SIZE_BYTES cfg
                 \<and> soundfile_open w p = Inr f
                 \<and> compute_sample_positions (sf_frames f) (sf_samplerate f)
                      (INTERVAL_SECONDS cfg) (NUM_SAMPLES_PER_FILE cfg) = (starts, n)
                 \<and> k < length starts
                 \<and> (\<forall>j<k. chunk_silent (SILENCE_THRESHOLD cfg) f n (starts ! j))
                 \<and> (sf_seek f (starts ! k) = Some e
                      \<or> sf_seek f (starts ! k) = None \<and> sf_read f (starts ! k) n = Inl e))
         \<or> (\<exists>w'. scan_try cfg fmt6g w p = (Inl e, w'))"
  shows "fst (scan_wav_for_silence cfg fmt6g w p) =
     \<lparr>path = p, decision = ''ERROR'', detail = exn_type e @ '': '' @ exn_msg e,
      size_bytes = 0, duration_sec = 0, samplerate = 0, channels = 0,
      interval_seconds = INTERVAL_SECONDS cfg, num_samples_used = 0,
      threshold = SILENCE_THRESHOLD cfg, max_abs_seen = 0\<rparr>"
proof -
  have raised: "\<exists>w'. scan_try cfg fmt6g w p = (Inl e, w')"
    using assms
  proof (elim disjE exE conjE)
    assume "path_stat w p = Inl e"
    then show ?thesis by (simp add: scan_try_def Let_def)
  next
    fix sz assume "path_stat w p = Inr sz" "\<not> sz < MIN_SIZE_BYTES cfg"
      "soundfile_open w p = Inl e"
    then show ?thesis by (simp add: scan_try_def Let_def)
  next
    fix sz f starts n k
    assume a: "path_stat w p = Inr sz" "\<not> sz < MIN_SIZE_BYTES cfg"
      "soundfile_open w p = Inr f"
      "compute_sample_positions (sf_frames f) (sf_samplerate f)
         (INTERVAL_SECONDS cfg) (NUM_SAMPLES_PER_FILE cfg) = (starts, n)"
      and k: "k < length starts"
      and q: "\<forall>j<k. chunk_silent (SILENCE_THRESHOLD cfg) f n (starts ! j)"
    have ne: "starts \<noteq> []" using k by auto
    have stop: "fst (scan_chunks (SILENCE_THRESHOLD cfg) f p n starts 0
                   (calls w @ [StatCall p, OpenCall p])) = Inl e"
      if "sf_seek f (starts ! k) = Some e
            \<or> sf_seek f (starts ! k) = None \<and> sf_read f (starts ! k) n = Inl e"
      using k q that by (rule scan_chunks_first_failure)
    have raise: ?thesis
      if "fst (scan_chunks (SILENCE_THRESHOLD cfg) f p n starts 0
                   (calls w @ [StatCall p, OpenCall p])) = Inl e"
      using that unfolding scan_try_reaches_loop [OF a ne]
      by (cases "scan_chunks (SILENCE_THRESHOLD cfg) f p n starts 0
                   (calls w @ [StatCall p, OpenCall p])") simp
    {
      assume "sf_seek f (starts ! k) = Some e"
      then show ?thesis by (intro raise stop disjI1)
    next
      assume "sf_seek f (starts ! k) = None" "sf_read f (starts ! k) n = Inl e"
      then show ?thesis by (intro raise stop disjI2 conjI)
    }
  next
    fix w' assume "scan_try cfg fmt6g w p = (Inl e, w')"
    then show ?thesis by blast
  qed
  then show ?thesis by (auto simp: scan_wav_for_silence_def)
qed

theorem failures_become_error_results_witness:
  "fst (scan_wav_for_silence default_config (\<lambda>x. ''?'')
       (example_world \<lparr>st_size = Inr 64,
          sf_open = Inr (example_reader (\<lambda>s k. if s = 1
             then Inl (Exn ''LibsndfileError'' ''Error reading file.'') else Inr [0])),
          os_remove = None\<rparr>) ''a.wav'')
     = \<lparr>path = ''a.wav'', decision = ''ERROR'',
        detail = ''LibsndfileError: Error reading file.'',
        size_bytes = 0, duration_sec = 0, samplerate = 0, channels = 0,
        interval_seconds = 7, num_samples_used = 0, threshold = 1 / 10000,
        max_abs_seen = 0\<rparr>"
proof -
  let ?e = "Exn ''LibsndfileError'' ''Error reading file.''"
  let ?f = "example_reader (\<lambda>s k. if s = 1 then Inl ?e else Inr [0])"
  let ?w = "example_world \<lparr>st_size = Inr 64, sf_open = Inr ?f, os_remove = None\<rparr>"
  have a: "path_stat ?w ''a.wav'' = Inr 64"
    by (simp add: path_stat_def example_world_def)
  have b: "\<not> 64 < MIN_SIZE_BYTES default_config"
    by (simp add: default_config_def)
  have c: "soundfile_open ?w ''a.wav'' = Inr ?f"
    by (simp add: soundfile_open_def example_world_def)
  have d: "compute_sample_positions (sf_frames ?f) (sf_samplerate ?f)
             (INTERVAL_SECONDS default_config) (NUM_SAMPLES_PER_FILE default_config)
           = ([0, 1, 2, 3], 7)"
    by (simp add: example_reader_def default_config_def example_plan)
  have k: "(1::nat) < length [0, 1, 2, 3 :: int]" by simp
  have q: "\<forall>j<1::nat. chunk_silent (SILENCE_THRESHOLD default_config) ?f 7 ([0, 1, 2, 3] ! j)"
    by (simp add: chunk_silent_def example_reader_def default_config_def)
  have r: "sf_seek ?f ([0, 1, 2, 3] ! 1) = None \<and> sf_read ?f ([0, 1, 2, 3] ! 1) 7 = Inl ?e"
    by (simp add: example_reader_def)
  have "\<exists>sz f starts n k. path_stat ?w ''a.wav'' = Inr sz \<and> \<not> sz < MIN_SIZE_BYTES default_config
                 \<and> soundfile_open ?w ''a.wav'' = Inr f
                 \<and> compute_sample_positions (sf_frames f) (sf_samplerate f)
                      (INTERVAL_SECONDS default_config) (NUM_SAMPLES_PER_FILE default_config) = (starts, n)
                 \<and> k < length starts
                 \<and> (\<forall>j<k. chunk_silent (SILENCE_THRESHOLD default_config) f n (starts ! j))
                 \<and> (sf_seek f (starts ! k) = Some ?e
                      \<or> sf_seek f (starts ! k) = None \<and> sf_read f (starts ! k) n = Inl ?e)"
    using a b c d k q r by blast
  then have "path_stat ?w ''a.wav'' = Inl ?e
         \<or> (\<exists>sz. path_stat ?w ''a.wav'' = Inr sz \<and> \<not> sz < MIN_SIZE_BYTES default_config
                 \<and> soundfile_open ?w ''a.wav'' = Inl ?e)
         \<or> (\<exists>sz f starts n k. path_stat ?w ''a.wav'' = Inr sz \<and> \<not> sz < MIN_SIZE_BYTES default_config
                 \<and> soundfile_open ?w ''a.wav'' = Inr f
                 \<and> compute_sample_positions (sf_frames f) (sf_samplerate f)
                      (INTERVAL_SECONDS default_config) (NUM_SAMPLES_PER_FILE default_config) = (starts, n)
                 \<and> k < length starts
                 \<and> (\<forall>j<k. chunk_silent (SILENCE_THRESHOLD default_config) f n (starts ! j))
                 \<and> (sf_seek f (starts ! k) = Some ?e
                      \<or> sf_seek f (starts ! k) = None \<and> sf_read f (starts ! k) n = Inl ?e))
         \<or> (\<exists>w'. scan_try default_config (\<lambda>x. ''?'') ?w ''a.wav'' = (Inl ?e, w'))"
    by (intro disjI2 disjI1)
  from failures_become_error_results [OF this] show ?thesis
    by (simp add: default_config_def)
qed

text \<open>
  C7. A degenerate planner input (sample rate, total frames or frames per chunk not
  positive) gives the empty plan. A file that is opened and whose plan is empty is classified
  ERROR with the detail that the sample positions could not be computed. In particular an
  audio file without frames is ERROR once it is opened, and is never SILENT.
\<close>

theorem empty_plan_is_error:
  "(sr \<le> 0 \<or> tf \<le> 0 \<or> sr * iv \<le> 0 \<longrightarrow>
      compute_sample_positions tf sr iv num = ([], sr * iv))
   \<and> (path_stat w p = Inr sz \<and> \<not> sz < MIN_SIZE_BYTES cfg \<and> soundfile_open w p = Inr f
        \<and> fst (compute_sample_positions (sf_frames f) (sf_samplerate f)
                 (INTERVAL_SECONDS cfg) (NUM_SAMPLES_PER_FILE cfg)) = [] \<longrightarrow>
      scan_wav_for_silence cfg fmt6g w p =
        (\<lparr>path = p, decision = ''ERROR'',
          detail = ''Could not compute sample positions (invalid WAV metadata or empty audio).'',
          size_bytes = sz,
          duration_sec = (if sf_samplerate f > 0
                          then real_of_int (sf_frames f) / real_of_int (sf_samplerate f) else 0),
          samplerate = sf_samplerate f, channels = sf_channels f,
          interval_seconds = INTERVAL_SECONDS cfg, num_samples_used = 0,
          threshold = SILENCE_THRESHOLD cfg, max_abs_seen = 0\<rparr>,
         w\<lparr>calls := calls w @ [StatCall p, OpenCall p]\<rparr>))
   \<and> (path_stat w p = Inr sz \<and> \<not> sz < MIN_SIZE_BYTES cfg \<and> soundfile_open w p = Inr f
        \<and> sf_frames f \<le> 0 \<longrightarrow>
      decision (fst (scan_wav_for_silence cfg fmt6g w p)) = ''ERROR''
      \<and> detail (fst (scan_wav_for_silence cfg fmt6g w p))
          = ''Could not compute sample positions (invalid WAV metadata or empty audio).'')
   \<and> (soundfile_open w p = Inr f \<and> sf_frames f \<le> 0 \<longrightarrow>
      decision (fst (scan_wav_for_silence cfg fmt6g w p)) \<noteq> ''SILENT'')"
proof -
  have degenerate: "compute_sample_positions tf sr iv num = ([], sr * iv)"
    if "sr \<le> 0 \<or> tf \<le> 0 \<or> sr * iv \<le> 0"
    using that by (auto simp: compute_sample_positions_def Let_def)
  have empty: "scan_wav_for_silence cfg fmt6g w p =
        (\<lparr>path = p, decision = ''ERROR'',
          detail = ''Could not compute sample positions (invalid WAV metadata or empty audio).'',
          size_bytes = sz,
          duration_sec = (if sf_samplerate f > 0
                          then real_of_int (sf_frames f) / real_of_int (sf_samplerate f) else 0),
          samplerate = sf_samplerate f, channels = sf_channels f,
          interval_seconds = INTERVAL_SECONDS cfg, num_samples_used = 0,
          threshold = SILENCE_THRESHOLD cfg, max_abs_seen = 0\<rparr>,
         w\<lparr>calls := calls w @ [StatCall p, OpenCall p]\<rparr>)"
    if "path_stat w p = Inr sz" "\<not> sz < MIN_SIZE_BYTES cfg" "soundfile_open w p = Inr f"
      "fst (compute_sample_positions (sf_frames f) (sf_samplerate f)
                 (INTERVAL_SECONDS cfg) (NUM_SAMPLES_PER_FILE cfg)) = []"
    using that
    by (cases "compute_sample_positions (sf_frames f) (sf_samplerate f)
                 (INTERVAL_SECONDS cfg) (NUM_SAMPLES_PER_FILE cfg)")
       (simp add: scan_wav_for_silence_def scan_try_def Let_def)
  have pl: "fst (compute_sample_positions (sf_frames f) (sf_samplerate f)
                 (INTERVAL_SECONDS cfg) (NUM_SAMPLES_PER_FILE cfg)) = []"
    if "sf_frames f \<le> 0"
    using that by (simp add: compute_sample_positions_def Let_def)
  have zero: "decision (fst (scan_wav_for_silence cfg fmt6g w p)) = ''ERROR''
      \<and> detail (fst (scan_wav_for_silence cfg fmt6g w p))
          = ''Could not compute sample positions (invalid WAV metadata or empty audio).''"
    if "path_stat w p = Inr sz" "\<not> sz < MIN_SIZE_BYTES cfg" "soundfile_open w p = Inr f"
      "sf_frames f \<le> 0"
    using empty [OF that(1-3) pl [OF that(4)]] by simp
  have never: "decision (fst (scan_wav_for_silence cfg fmt6g w p)) \<noteq> ''SILENT''"
    if o: "soundfile_open w p = Inr f" and z: "sf_frames f \<le> 0"
  proof (cases "path_stat w p")
    case (Inl e)
    then show ?thesis by (simp add: scan_wav_for_silence_def scan_try_def Let_def)
  next
    case (Inr sz')
    show ?thesis
    proof (cases "sz' < MIN_SIZE_BYTES cfg")
      case True
      with Inr show ?thesis by (simp add: scan_wav_for_silence_def scan_try_def Let_def)
    next
      case False
      have "scan_wav_for_silence cfg fmt6g w p =
        (\<lparr>path = p, decision = ''ERROR'',
          detail = ''Could not compute sample positions (invalid WAV metadata or empty audio).'',
          size_bytes = sz',
          duration_sec = (if sf_samplerate f > 0
                          then real_of_int (sf_frames f) / real_of_int (sf_samplerate f) else 0),
          samplerate = sf_samplerate f, channels = sf_channels f,
          interval_seconds = INTERVAL_SECONDS cfg, num_samples_used = 0,
          threshold = SILENCE_THRESHOLD cfg, max_abs_seen = 0\<rparr>,
         w\<lparr>calls := calls w @ [StatCall p, OpenCall p]\<rparr>)"
        using Inr False o pl [OF z]
        by (cases "compute_sample_positions (sf_frames f) (sf_samplerate f)
                 (INTERVAL_SECONDS cfg) (NUM_SAMPLES_PER_FILE cfg)")
           (simp add: scan_wav_for_silence_def scan_try_def Let_def)
      then show ?thesis by simp
    qed
  qed
  show ?thesis using degenerate empty zero never by blast
qed

theorem empty_plan_is_error_witness:
  "compute_sample_positions 0 48000 7 16 = ([], 48000 * 7)
   \<and> scan_wav_for_silence default_config (\<lambda>x. ''?'')
       (example_world \<lparr>st_size = Inr 44,
          sf_open = Inr \<lparr>sf_samplerate = 48000, sf_channels = 2, sf_frames = 0,
                          sf_seek = (\<lambda>s. None), sf_read = (\<lambda>s k. Inr [])\<rparr>,
          os_remove = None\<rparr>) ''a.wav''
     = (\<lparr>path = ''a.wav'', decision = ''ERROR'',
         detail = ''Could not compute sample positions (invalid WAV metadata or empty audio).'',
         size_bytes = 44, duration_sec = 0, samplerate = 48000, channels = 2,
         interval_seconds = 7, num_samples_used = 0, threshold = 1 / 10000,
         max_abs_seen = 0\<rparr>,
        (example_world \<lparr>st_size = Inr 44,
          sf_open = Inr \<lparr>sf_samplerate = 48000, sf_channels = 2, sf_frames = 0,
                          sf_seek = (\<lambda>s. None), sf_read = (\<lambda>s k. Inr [])\<rparr>,
          os_remove = None\<rparr>)\<lparr>calls := [StatCall ''a.wav'', OpenCall ''a.wav'']\<rparr>)"
proof -
  let ?f = "\<lparr>sf_samplerate = 48000, sf_channels = 2, sf_frames = 0,
                          sf_seek = (\<lambda>s. None), sf_read = (\<lambda>s k. Inr [])\<rparr>"
  let ?w = "example_world \<lparr>st_size = Inr 44, sf_open = Inr ?f, os_remove = None\<rparr>"
  have a: "path_stat ?w ''a.wav'' = Inr 44"
    by (simp add: path_stat_def example_world_def)
  have b: "\<not> 44 < MIN_SIZE_BYTES default_config"
    by (simp add: default_config_def)
  have c: "soundfile_open ?w ''a.wav'' = Inr ?f"
    by (simp add: soundfile_open_def example_world_def)
  have d: "fst (compute_sample_positions (sf_frames ?f) (sf_samplerate ?f)
             (INTERVAL_SECONDS default_config) (NUM_SAMPLES_PER_FILE default_config)) = []"
    by (simp add: compute_sample_positions_def default_config_def)
  have cs: "calls ?w = []" by (simp add: example_world_def)
  have z: "(0::int) \<le> 0" by simp
  from empty_plan_is_error [of 48000 0 7 16 ?w "''a.wav''" 44 default_config ?f "\<lambda>x. ''?''"]
  show ?thesis
    using a b c d z unfolding cs by (simp add: default_config_def)
qed

section \<open>More properties of the planner\<close>




section \<open>Properties of the pipeline\<close>

text \<open>
  C8. At every step of every run over any list of files: the loop body calls
  \<^verbatim>\<open>os.remove\<close> exactly when the mode is DELETE and the classification of that file is
  SILENT, and then for that file's path only. For any other decision (KEEP, ERROR), and in
  any other mode, no removal is attempted and the files are left as they were.
\<close>

theorem deletion_only_when_silent:
  "let st1 = main_loop cfg fmt6g pre st;
       res = fst (scan_wav_for_silence cfg fmt6g (env st1) wav);
       st2 = main_body cfg fmt6g st1 wav
   in main_loop cfg fmt6g (pre @ wav # post) st = main_loop cfg fmt6g post st2
      \<and> removals (calls (env st2)) =
          removals (calls (env st1))
            @ (if MODE cfg = ''DELETE'' \<and> decision res = ''SILENT'' then [wav] else [])
      \<and> (decision res \<noteq> ''SILENT'' \<or> MODE cfg \<noteq> ''DELETE''
            \<longrightarrow> files (env st2) = files (env st1))"
proof -
  define st1 where "st1 = main_loop cfg fmt6g pre st"
  obtain res w1 where sc: "scan_wav_for_silence cfg fmt6g (env st1) wav = (res, w1)"
    by (cases "scan_wav_for_silence cfg fmt6g (env st1) wav")
  have w1: "files w1 = files (env st1)" "removals (calls w1) = removals (calls (env st1))"
    using scan_world [of cfg fmt6g "env st1" wav] sc by simp_all
  have run: "main_loop cfg fmt6g (pre @ wav # post) st
               = main_loop cfg fmt6g post (main_body cfg fmt6g st1 wav)"
    by (simp add: main_loop_append st1_def)
  have step: "removals (calls (env (main_body cfg fmt6g st1 wav))) =
          removals (calls (env st1))
            @ (if MODE cfg = ''DELETE'' \<and> decision res = ''SILENT'' then [wav] else [])
      \<and> (decision res \<noteq> ''SILENT'' \<or> MODE cfg \<noteq> ''DELETE''
            \<longrightarrow> files (env (main_body cfg fmt6g st1 wav)) = files (env st1))"
  proof (cases "decision res = ''SILENT''")
    case False
    show ?thesis unfolding main_body_not_silent [OF sc False] using w1 False by simp
  next
    case True
    show ?thesis
    proof (cases "MODE cfg = ''DELETE''")
      case False
      show ?thesis unfolding main_body_silent_audit [OF sc True False] using w1 False by simp
    next
      case del: True
      obtain r w2 where rm: "os_remove_path w1 wav = (r, w2)" by (cases "os_remove_path w1 wav")
      have c2: "calls w2 = calls w1 @ [RemoveCall wav]"
        using os_remove_path_calls [of w1 wav] rm by simp
      show ?thesis
      proof (cases r)
        case None
        show ?thesis
          unfolding main_body_silent_deleted [OF sc True del rm [unfolded None]]
          using w1 c2 True del by (simp add: removals_append)
      next
        case (Some e)
        show ?thesis
          unfolding main_body_silent_delete_failed [OF sc True del rm [unfolded Some]]
          using w1 c2 True del by (simp add: removals_append)
      qed
    qed
  qed
  show ?thesis
    unfolding Let_def st1_def [symmetric] using run step sc by simp
qed

theorem deletion_only_when_silent_witness:
  "removals (calls (env (main_loop (default_config\<lparr>MODE := ''DELETE''\<rparr>) (\<lambda>x. ''?'') [''a.wav'']
      (initial_state (example_world \<lparr>st_size = Inr 64,
          sf_open = Inr (example_reader (\<lambda>s k. Inr [])), os_remove = None\<rparr>)))))
     = [''a.wav'']"
proof -
  let ?cfg = "default_config\<lparr>MODE := ''DELETE''\<rparr>"
  let ?w = "example_world \<lparr>st_size = Inr 64,
          sf_open = Inr (example_reader (\<lambda>s k. Inr [])), os_remove = None\<rparr>"
  have d: "decision (fst (scan_wav_for_silence ?cfg (\<lambda>x. ''?'') (env (initial_state ?w)) ''a.wav''))
             = ''SILENT''"
    by (simp add: initial_state_def example_scan_empty_reads)
  have m: "MODE ?cfg = ''DELETE''" by simp
  have c: "removals (calls (env (initial_state ?w))) = []"
    by (simp add: initial_state_def example_world_def)
  from deletion_only_when_silent [where cfg = ?cfg and ?fmt6g = "\<lambda>x. ''?''" and pre = "[]"
         and wav = "''a.wav''" and post = "[]" and st = "initial_state ?w"]
  show ?thesis
    unfolding Let_def using d m c by simp
qed

text \<open>
  C9. In DELETE mode, when the removal of a file classified SILENT fails, the error counter
  goes up by one, the deleted counter and the reclaimed bytes stay, the report gets the
  SILENT row followed by a copy of it whose decision is ERROR and whose detail says that the
  delete failed, the file is still there, the run goes on with the remaining files, and in a
  run over distinct paths the final report holds exactly these two rows for that path.
\<close>

theorem delete_failure_recorded:
  assumes "MODE cfg = ''DELETE''"
    and "distinct (pre @ wav # post)"
    and "st1 = main_loop cfg fmt6g pre (initial_state w0)"
    and "scan_wav_for_silence cfg fmt6g (env st1) wav = (res, w1)"
    and "decision res = ''SILENT''"
    and "os_remove_path w1 wav = (Some e, w2)"
    and "st2 = main_body cfg fmt6g st1 wav"
    and "final = main_loop cfg fmt6g (pre @ wav # post) (initial_state w0)"
  shows "error_count st2 = error_count st1 + 1
       \<and> deleted_count st2 = deleted_count st1
       \<and> bytes_deleted_savings st2 = bytes_deleted_savings st1
       \<and> report_rows st2 = report_rows st1 @
           [res, res\<lparr>decision := ''ERROR'',
                     detail := ''Delete failed: '' @ exn_type e @ '': '' @ exn_msg e\<rparr>]
       \<and> files (env st2) = files (env st1)
       \<and> final = main_loop cfg fmt6g post st2
       \<and> filter (\<lambda>r. path r = wav) (report_rows final) =
           [res, res\<lparr>decision := ''ERROR'',
                     detail := ''Delete failed: '' @ exn_type e @ '': '' @ exn_msg e\<rparr>]"
proof -
  let ?err = "res\<lparr>decision := ''ERROR'',
                   detail := ''Delete failed: '' @ exn_type e @ '': '' @ exn_msg e\<rparr>"
  have body: "st2 = st1\<lparr>scanned := scanned st1 + 1,
              silent_candidates := silent_candidates st1 + 1,
              bytes_candidate_savings := bytes_candidate_savings st1 + size_bytes res,
              error_count := error_count st1 + 1,
              report_rows := report_rows st1 @ [res, ?err],
              env := w2\<rparr>"
    unfolding assms(7) by (rule main_body_silent_delete_failed [OF assms(4,5,1,6)])
  have p: "path res = wav" using scan_path [of cfg fmt6g "env st1" wav] assms(4) by simp
  have fl: "files w2 = files (env st1)"
    using os_remove_path_failed [OF assms(6)] scan_world [of cfg fmt6g "env st1" wav] assms(4)
    by simp
  have fin: "final = main_loop cfg fmt6g post st2"
    unfolding assms(8) assms(7) assms(3) by (simp add: main_loop_append)
  from main_loop_rows [of cfg fmt6g pre "initial_state w0"] obtain e1
    where e1: "report_rows st1 = e1" and p1: "\<forall>r\<in>set e1. path r \<in> set pre"
    unfolding assms(3) by (auto simp: initial_state_def)
  from main_loop_rows [of cfg fmt6g post st2] obtain e2
    where e2: "report_rows final = report_rows st2 @ e2" and p2: "\<forall>r\<in>set e2. path r \<in> set post"
    unfolding fin by blast
  have n1: "wav \<notin> set pre" and n2: "wav \<notin> set post" using assms(2) by auto
  have f1: "filter (\<lambda>r. path r = wav) e1 = []" using p1 n1 by (auto simp: filter_empty_conv)
  have f2: "filter (\<lambda>r. path r = wav) e2 = []" using p2 n2 by (auto simp: filter_empty_conv)
  have rows: "report_rows final = e1 @ [res, ?err] @ e2"
    using e2 e1 body by simp
  have "filter (\<lambda>r. path r = wav) (report_rows final) = [res, ?err]"
    unfolding rows using f1 f2 p by simp
  then show ?thesis using body fl fin by simp
qed

theorem delete_failure_recorded_witness:
  "report_rows (main_loop (default_config\<lparr>MODE := ''DELETE''\<rparr>) (\<lambda>x. ''?'') [''a.wav'']
      (initial_state (example_world \<lparr>st_size = Inr 64,
          sf_open = Inr (example_reader (\<lambda>s k. Inr [])),
          os_remove = Some (Exn ''PermissionError'' ''[Errno 13] Permission denied'')\<rparr>)))
     = [\<lparr>path = ''a.wav'', decision = ''SILENT'',
         detail = ''All sampled chunks were below threshold.'',
         size_bytes = 64, duration_sec = 10, samplerate = 1, channels = 1,
         interval_seconds = 7, num_samples_used = 4, threshold = 1 / 10000,
         max_abs_seen = 0\<rparr>,
        \<lparr>path = ''a.wav'', decision = ''ERROR'',
         detail = ''Delete failed: PermissionError: [Errno 13] Permission denied'',
         size_bytes = 64, duration_sec = 10, samplerate = 1, channels = 1,
         interval_seconds = 7, num_samples_used = 4, threshold = 1 / 10000,
         max_abs_seen = 0\<rparr>]
   \<and> error_count (main_loop (default_config\<lparr>MODE := ''DELETE''\<rparr>) (\<lambda>x. ''?'') [''a.wav'']
      (initial_state (example_world \<lparr>st_size = Inr 64,
          sf_open = Inr (example_reader (\<lambda>s k. Inr [])),
          os_remove = Some (Exn ''PermissionError'' ''[Errno 13] Permission denied'')\<rparr>))) = 1
   \<and> deleted_count (main_loop (default_config\<lparr>MODE := ''DELETE''\<rparr>) (\<lambda>x. ''?'') [''a.wav'']
      (initial_state (example_world \<lparr>st_size = Inr 64,
          sf_open = Inr (example_reader (\<lambda>s k. Inr [])),
          os_remove = Some (Exn ''PermissionError'' ''[Errno 13] Permission denied'')\<rparr>))) = 0"
proof -
  let ?cfg = "default_config\<lparr>MODE := ''DELETE''\<rparr>"
  let ?e = "Exn ''PermissionError'' ''[Errno 13] Permission denied''"
  let ?w = "example_world \<lparr>st_size = Inr 64,
          sf_open = Inr (example_reader (\<lambda>s k. Inr [])), os_remove = Some ?e\<rparr>"
  let ?res = "\<lparr>path = ''a.wav'', decision = ''SILENT'',
         detail = ''All sampled chunks were below threshold.'',
         size_bytes = 64, duration_sec = 10, samplerate = 1, channels = 1,
         interval_seconds = 7, num_samples_used = 4, threshold = 1 / 10000,
         max_abs_seen = 0\<rparr>"
  let ?w1 = "?w\<lparr>calls := [StatCall ''a.wav'', OpenCall ''a.wav'',
                     SeekCall ''a.wav'' 0, ReadCall ''a.wav'' 7,
                     SeekCall ''a.wav'' 1, ReadCall ''a.wav'' 7,
                     SeekCall ''a.wav'' 2, ReadCall ''a.wav'' 7,
                     SeekCall ''a.wav'' 3, ReadCall ''a.wav'' 7]\<rparr>"
  let ?st1 = "main_loop ?cfg (\<lambda>x. ''?'') [] (initial_state ?w)"
  have m: "MODE ?cfg = ''DELETE''" by simp
  have di: "distinct ([] @ ''a.wav'' # [])" by simp
  have sc: "scan_wav_for_silence ?cfg (\<lambda>x. ''?'') (env ?st1) ''a.wav'' = (?res, ?w1)"
    by (simp add: initial_state_def example_scan_empty_reads)
  have d: "decision ?res = ''SILENT''" by simp
  have rm: "os_remove_path ?w1 ''a.wav'' = (Some ?e, ?w1\<lparr>calls := calls ?w1 @ [RemoveCall ''a.wav'']\<rparr>)"
    by (simp add: os_remove_path_def example_world_def Let_def)
  have i: "error_count ?st1 = 0" "deleted_count ?st1 = 0" "report_rows ?st1 = []"
    by (simp_all add: initial_state_def)
  note t = delete_failure_recorded [OF m di refl sc d rm refl refl]
  have l: "main_loop ?cfg (\<lambda>x. ''?'') ([] @ ''a.wav'' # []) (initial_state ?w)
             = main_body ?cfg (\<lambda>x. ''?'') ?st1 ''a.wav''" by simp
  from t show ?thesis unfolding l i by simp
qed

end
